theory Spec2Isabelle
  imports Main
begin

section \<open>Data model\<close>

text \<open>
  The rows of the tables that \<^verbatim>\<open>inventory/views.py\<close> reads and writes. A table is the
  list of its rows in storage order; a foreign key is the primary key of the row it
  points to. Timestamps are natural numbers.
\<close>

record business_unit =
  bu_id :: nat
  bu_name :: string

record machine_group =
  mg_id :: nat
  mg_business_unit :: nat

record machine =
  m_id :: nat
  m_serial :: string
  m_hostname :: string
  m_machine_group :: nat
  m_last_inventory_update :: "nat option"

record application =
  app_id :: nat
  app_bundleid :: string
  app_name :: string
  app_bundlename :: string

record inventoryitem =
  ii_id :: nat
  ii_machine :: nat
  ii_application :: nat
  ii_version :: string
  ii_path :: string

text \<open>
  \<^verbatim>\<open>Inventory\<close> is the per-machine hash record. An object built in memory and not yet
  saved has no primary key.
\<close>

record inventory =
  inv_id :: "nat option"
  inv_machine :: nat
  inv_sha256hash :: string

record db =
  business_units :: "business_unit list"
  machine_groups :: "machine_group list"
  machines :: "machine list"
  applications :: "application list"
  inventoryitems :: "inventoryitem list"
  inventories :: "inventory list"
  next_application_id :: nat
  next_inventoryitem_id :: nat
  next_inventory_id :: nat

datatype exn = DoesNotExist | MultipleObjectsReturned | Http404 | KeyError

record response =
  status :: nat
  body :: string

definition HttpResponse :: "string \<Rightarrow> response" where
  "HttpResponse s = \<lparr>status = 200, body = s\<rparr>"

definition HttpResponseNotFound :: "string \<Rightarrow> response" where
  "HttpResponseNotFound s = \<lparr>status = 404, body = s\<rparr>"

section \<open>Object manager operations\<close>

text \<open>
  \<^verbatim>\<open>Model.objects.get(...)\<close> returns the single matching row, raises
  \<^verbatim>\<open>DoesNotExist\<close> when there is none and \<^verbatim>\<open>MultipleObjectsReturned\<close> when there are
  several.
\<close>

definition objects_get :: "('a \<Rightarrow> bool) \<Rightarrow> 'a list \<Rightarrow> exn + 'a" where
  "objects_get P rows =
     (case filter P rows of
        [] \<Rightarrow> Inl DoesNotExist
      | [r] \<Rightarrow> Inr r
      | _ \<Rightarrow> Inl MultipleObjectsReturned)"

definition get_object_or_404 :: "('a \<Rightarrow> bool) \<Rightarrow> 'a list \<Rightarrow> exn + 'a" where
  "get_object_or_404 P rows =
     (case objects_get P rows of
        Inl DoesNotExist \<Rightarrow> Inl Http404
      | Inl e \<Rightarrow> Inl e
      | Inr r \<Rightarrow> Inr r)"

section \<open>GroupMixin\<close>

datatype group_class = BusinessUnitC | MachineC | MachineGroupC

datatype group_instance =
  GBusinessUnit business_unit | GMachineGroup machine_group | GMachine machine

text \<open>The class attribute \<^verbatim>\<open>classes\<close>; a key outside the dict raises \<^verbatim>\<open>KeyError\<close>.\<close>

definition classes :: "string \<Rightarrow> exn + group_class option" where
  "classes group_type =
     (if group_type = ''all'' then Inr None
      else if group_type = ''business_unit'' then Inr (Some BusinessUnitC)
      else if group_type = ''machine'' then Inr (Some MachineC)
      else if group_type = ''machine_group'' then Inr (Some MachineGroupC)
      else Inl KeyError)"

definition get_group_instance :: "db \<Rightarrow> string \<Rightarrow> nat \<Rightarrow> exn + group_instance option" where
  "get_group_instance d group_type group_id =
     (case classes group_type of
        Inl e \<Rightarrow> Inl e
      | Inr None \<Rightarrow> Inr None
      | Inr (Some BusinessUnitC) \<Rightarrow>
          map_sum id (\<lambda>b. Some (GBusinessUnit b))
            (get_object_or_404 (\<lambda>b. bu_id b = group_id) (business_units d))
      | Inr (Some MachineGroupC) \<Rightarrow>
          map_sum id (\<lambda>g. Some (GMachineGroup g))
            (get_object_or_404 (\<lambda>g. mg_id g = group_id) (machine_groups d))
      | Inr (Some MachineC) \<Rightarrow>
          map_sum id (\<lambda>m. Some (GMachine m))
            (get_object_or_404 (\<lambda>m. m_id m = group_id) (machines d)))"

text \<open>
  The three filter paths of \<^verbatim>\<open>filter_inventoryitem_by_group\<close>. A path through a foreign
  key is the join on the referenced primary key.
\<close>

definition machine__machine_group__business_unit :: "db \<Rightarrow> business_unit \<Rightarrow> inventoryitem \<Rightarrow> bool" where
  "machine__machine_group__business_unit d b i =
     (\<exists>m \<in> set (machines d). m_id m = ii_machine i \<and>
        (\<exists>g \<in> set (machine_groups d). mg_id g = m_machine_group m \<and> mg_business_unit g = bu_id b))"

definition machine__machine_group :: "db \<Rightarrow> machine_group \<Rightarrow> inventoryitem \<Rightarrow> bool" where
  "machine__machine_group d g i =
     (\<exists>m \<in> set (machines d). m_id m = ii_machine i \<and> m_machine_group m = mg_id g)"

definition filter_inventoryitem_by_group ::
  "db \<Rightarrow> string \<Rightarrow> nat \<Rightarrow> inventoryitem list \<Rightarrow> exn + inventoryitem list" where
  "filter_inventoryitem_by_group d group_type group_id queryset =
     (case get_group_instance d group_type group_id of
        Inl e \<Rightarrow> Inl e
      | Inr None \<Rightarrow> Inr queryset
      | Inr (Some (GBusinessUnit b)) \<Rightarrow>
          Inr (filter (machine__machine_group__business_unit d b) queryset)
      | Inr (Some (GMachineGroup g)) \<Rightarrow>
          Inr (filter (machine__machine_group d g) queryset)
      | Inr (Some (GMachine m)) \<Rightarrow>
          Inr (filter (\<lambda>i. ii_machine i = m_id m) queryset))"

section \<open>The list view and its distinct-machine query\<close>

definition filter_by_field :: "string \<Rightarrow> string \<Rightarrow> inventoryitem list \<Rightarrow> inventoryitem list" where
  "filter_by_field field_type field_value queryset =
     (if field_type = ''path'' then filter (\<lambda>i. ii_path i = field_value) queryset
      else if field_type = ''version'' then filter (\<lambda>i. ii_version i = field_value) queryset
      else queryset)"

text \<open>Lines 139 to 151: the scope, application and field filters.\<close>

definition filtered_queryset ::
  "db \<Rightarrow> string \<Rightarrow> nat \<Rightarrow> nat \<Rightarrow> string \<Rightarrow> string \<Rightarrow> exn + inventoryitem list" where
  "filtered_queryset d group_type group_id application_id field_type field_value =
     (case filter_inventoryitem_by_group d group_type group_id (inventoryitems d) of
        Inl e \<Rightarrow> Inl e
      | Inr queryset \<Rightarrow>
          (case get_object_or_404 (\<lambda>a. app_id a = application_id) (applications d) of
             Inl e \<Rightarrow> Inl e
           | Inr a \<Rightarrow>
               Inr (filter_by_field field_type field_value
                      (filter (\<lambda>i. ii_application i = app_id a) queryset))))"

text \<open>
  \<^verbatim>\<open>distinct("machine")\<close> keeps one row for each machine; the model keeps the first
  in storage order.
\<close>

fun distinct_on :: "('a \<Rightarrow> 'k) \<Rightarrow> 'a list \<Rightarrow> 'a list" where
  "distinct_on key [] = []"
| "distinct_on key (x # xs) = x # distinct_on key (filter (\<lambda>y. key y \<noteq> key x) xs)"

text \<open>
  The view returns inventory items on the native path and machines on the fallback
  path.
\<close>

datatype queryset = ItemQS "inventoryitem list" | MachineQS "machine list"

definition get_queryset ::
  "bool \<Rightarrow> db \<Rightarrow> string \<Rightarrow> nat \<Rightarrow> nat \<Rightarrow> string \<Rightarrow> string \<Rightarrow> exn + queryset" where
  "get_queryset is_postgres d group_type group_id application_id field_type field_value =
     (case filtered_queryset d group_type group_id application_id field_type field_value of
        Inl e \<Rightarrow> Inl e
      | Inr queryset \<Rightarrow>
          if is_postgres then Inr (ItemQS (distinct_on ii_machine queryset))
          else
            let machine_ids = remdups (map ii_machine queryset)
            in Inr (MachineQS (filter (\<lambda>m. m_id m \<in> set machine_ids) (machines d))))"

text \<open>The machines a result stands for.\<close>

fun queryset_machine_ids :: "queryset \<Rightarrow> nat set" where
  "queryset_machine_ids (ItemQS items) = ii_machine ` set items"
| "queryset_machine_ids (MachineQS ms) = m_id ` set ms"

text \<open>The foreign key from an inventory item to its machine.\<close>

definition items_reference_machines :: "db \<Rightarrow> bool" where
  "items_reference_machines d =
     (\<forall>i \<in> set (inventoryitems d). \<exists>m \<in> set (machines d). m_id m = ii_machine i)"

section \<open>CSV export file name\<close>

text \<open>Python's \<^verbatim>\<open>sep.join(xs)\<close>.\<close>

fun join :: "string \<Rightarrow> string list \<Rightarrow> string" where
  "join sep [] = []"
| "join sep [x] = x"
| "join sep (x # y # ys) = x @ sep @ join sep (y # ys)"

text \<open>
  \<^verbatim>\<open>urllib.quote\<close> with its default \<^verbatim>\<open>safe='/'\<close>: letters, digits and \<^verbatim>\<open>_.-/\<close> are
  kept, every other byte becomes \<^verbatim>\<open>%XX\<close> in upper-case hexadecimal.
\<close>

definition always_safe :: "char list" where
  "always_safe =
     ''ABCDEFGHIJKLMNOPQRSTUVWXYZabcdefghijklmnopqrstuvwxyz0123456789_.-''"

definition hex_digit :: "nat \<Rightarrow> char" where
  "hex_digit n = ''0123456789ABCDEF'' ! (n mod 16)"

definition quote_char :: "char \<Rightarrow> string" where
  "quote_char c =
     (if c \<in> set always_safe \<or> c = CHR ''/'' then [c]
      else [CHR ''%'', hex_digit ((of_char c :: nat) div 16), hex_digit ((of_char c :: nat) mod 16)])"

definition quote :: "string \<Rightarrow> string" where
  "quote s = concat (map quote_char s)"

text \<open>The URL keyword arguments of the export view, as the strings the URL carries.\<close>

record url_kwargs =
  group_type :: string
  group_id :: string
  application_id :: string
  field_type :: string
  field_value :: string

definition csv_filename :: string where
  "csv_filename = ''sal_inventory''"

definition csv_ext :: string where
  "csv_ext = ''.csv''"

definition get_csv_filename :: "string list \<Rightarrow> string" where
  "get_csv_filename components =
     (let identifier = (if components \<noteq> [] then ''_'' @ join ''_'' components else [])
      in csv_filename @ identifier @ csv_ext)"

text \<open>The value of \<^verbatim>\<open>self.components\<close> that \<^verbatim>\<open>CSVExportView.get\<close> leaves behind.\<close>

definition export_components :: "url_kwargs \<Rightarrow> string list" where
  "export_components kwargs =
     (if application_id kwargs = ''0'' then
        [''application'', ''list'', ''for'', group_type kwargs]
        @ (if group_type kwargs \<noteq> ''all'' then [group_id kwargs] else [])
      else
        [''application'', application_id kwargs, ''for'', group_type kwargs]
        @ (if group_type kwargs \<noteq> ''all'' then [group_id kwargs] else [])
        @ (if field_type kwargs \<noteq> ''all''
           then [''where'', field_type kwargs, ''is'', quote (field_value kwargs)] else []))"

definition export_filename :: "url_kwargs \<Rightarrow> string" where
  "export_filename kwargs = get_csv_filename (export_components kwargs)"

text \<open>
  The component order in the words of the specification: the scope descriptor, then
  the "for application" qualifier, then the "where field is value" qualifier.
\<close>

definition spec_components :: "url_kwargs \<Rightarrow> string list" where
  "spec_components kwargs =
     ([group_type kwargs] @ (if group_type kwargs \<noteq> ''all'' then [group_id kwargs] else []))
     @ [''for'', ''application'', application_id kwargs]
     @ (if field_type kwargs \<noteq> ''all''
        then [''where'', field_type kwargs, ''is'', quote (field_value kwargs)] else [])"

section \<open>Inventory submission\<close>

text \<open>
  What the handler takes from outside this file: \<^verbatim>\<open>server.utils.decode_to_string\<close>,
  \<^verbatim>\<open>plistlib.readPlistFromString\<close> (\<open>None\<close> when it raises or returns \<^verbatim>\<open>None\<close>),
  \<^verbatim>\<open>hashlib.sha256(...).hexdigest()\<close> and \<^verbatim>\<open>datetime.now()\<close>. A parsed payload is a
  list of dicts from strings to strings, the shape the submitting agent produces.
\<close>

type_synonym entry = "(string \<times> string) list"

record env =
  decode_to_string :: "string \<Rightarrow> string"
  readPlistFromString :: "string \<Rightarrow> entry list option"
  sha256_hexdigest :: "string \<Rightarrow> string"
  now :: nat

text \<open>\<^verbatim>\<open>item.get(key, default)\<close>.\<close>

definition dict_get :: "entry \<Rightarrow> string \<Rightarrow> string \<Rightarrow> string" where
  "dict_get item k dflt = (case map_of item k of None \<Rightarrow> dflt | Some v \<Rightarrow> v)"

definition bundleid_ignorelist :: "string list" where
  "bundleid_ignorelist = [''com.apple.print.PrinterProxy'']"

text \<open>\<^verbatim>\<open>item.get('bundleid') in bundleid_ignorelist\<close>; a missing key gives \<^verbatim>\<open>None\<close>.\<close>

definition ignored :: "entry \<Rightarrow> bool" where
  "ignored item =
     (case map_of item ''bundleid'' of None \<Rightarrow> False | Some b \<Rightarrow> b \<in> set bundleid_ignorelist)"

text \<open>The request: its method and what \<^verbatim>\<open>request.POST.get\<close> returns for the two fields.\<close>

record request =
  req_method :: string
  post_serial :: "string option"
  post_base64bz2inventory :: "string option"

definition replace_space_plus :: "string \<Rightarrow> string" where
  "replace_space_plus s = map (\<lambda>c. if c = CHR '' '' then CHR ''+'' else c) s"

definition get_or_create :: "string \<Rightarrow> string \<Rightarrow> string \<Rightarrow> db \<Rightarrow> db \<times> (exn + application)" where
  "get_or_create bundleid name bundlename d =
     (case objects_get (\<lambda>a. app_bundleid a = bundleid \<and> app_name a = name \<and>
                             app_bundlename a = bundlename) (applications d) of
        Inr a \<Rightarrow> (d, Inr a)
      | Inl DoesNotExist \<Rightarrow>
          (let a = \<lparr>app_id = next_application_id d, app_bundleid = bundleid,
                    app_name = name, app_bundlename = bundlename\<rparr>
           in (d\<lparr>applications := applications d @ [a],
                 next_application_id := Suc (next_application_id d)\<rparr>, Inr a))
      | Inl e \<Rightarrow> (d, Inl e))"

definition inventoryitem_create :: "machine \<Rightarrow> application \<Rightarrow> string \<Rightarrow> string \<Rightarrow> db \<Rightarrow> db" where
  "inventoryitem_create m a version path d =
     d\<lparr>inventoryitems := inventoryitems d @
          [\<lparr>ii_id = next_inventoryitem_id d, ii_machine = m_id m, ii_application = app_id a,
            ii_version = version, ii_path = path\<rparr>],
       next_inventoryitem_id := Suc (next_inventoryitem_id d)\<rparr>"

text \<open>The loop of lines 417 to 427; an exception leaves the rows written so far.\<close>

fun insert_items :: "machine \<Rightarrow> entry list \<Rightarrow> db \<Rightarrow> db \<times> exn option" where
  "insert_items m [] d = (d, None)"
| "insert_items m (item # items) d =
     (case get_or_create (dict_get item ''bundleid'' []) (dict_get item ''name'' [])
             (dict_get item ''CFBundleName'' []) d of
        (d1, Inl e) \<Rightarrow> (d1, Some e)
      | (d1, Inr a) \<Rightarrow>
          insert_items m items
            (if \<not> ignored item
             then inventoryitem_create m a (dict_get item ''version'' []) (dict_get item ''path'' []) d1
             else d1))"

text \<open>
  \<^verbatim>\<open>save()\<close>: an object with a primary key updates its row, or is inserted when no row
  has that key; an object without one is inserted under a fresh key.
\<close>

definition inventory_save :: "inventory \<Rightarrow> db \<Rightarrow> db" where
  "inventory_save meta d =
     (case inv_id meta of
        None \<Rightarrow>
          d\<lparr>inventories := inventories d @ [meta\<lparr>inv_id := Some (next_inventory_id d)\<rparr>],
            next_inventory_id := Suc (next_inventory_id d)\<rparr>
      | Some k \<Rightarrow>
          if \<exists>r \<in> set (inventories d). inv_id r = Some k
          then d\<lparr>inventories := map (\<lambda>r. if inv_id r = Some k then meta else r) (inventories d)\<rparr>
          else d\<lparr>inventories := inventories d @ [meta]\<rparr>)"

definition machine_save :: "machine \<Rightarrow> db \<Rightarrow> db" where
  "machine_save m d =
     (if \<exists>r \<in> set (machines d). m_id r = m_id m
      then d\<lparr>machines := map (\<lambda>r. if m_id r = m_id m then m else r) (machines d)\<rparr>
      else d\<lparr>machines := machines d @ [m]\<rparr>)"

definition no_inventory_submitted :: string where
  "no_inventory_submitted = ''No inventory submitted.'' @ [CHR 0x0A]"

definition inventory_submitted_for :: "string \<Rightarrow> string" where
  "inventory_submitted_for serial = ''Inventory submmitted for '' @ serial @ ''.'' @ [CHR 0x0A]"

text \<open>
  Lines 408 to 411: the machine's hash record, or a new unsaved one when there is
  none.
\<close>

definition inventory_meta_for :: "machine \<Rightarrow> db \<Rightarrow> exn + inventory" where
  "inventory_meta_for m d =
     (case objects_get (\<lambda>r. inv_machine r = m_id m) (inventories d) of
        Inr r \<Rightarrow> Inr r
      | Inl DoesNotExist \<Rightarrow> Inr \<lparr>inv_id = None, inv_machine = m_id m, inv_sha256hash = []\<rparr>
      | Inl x \<Rightarrow> Inl x)"

text \<open>\<^verbatim>\<open>machine.inventoryitem_set.all().delete()\<close>.\<close>

definition inventoryitem_set_delete :: "machine \<Rightarrow> db \<Rightarrow> db" where
  "inventoryitem_set_delete m d =
     d\<lparr>inventoryitems := filter (\<lambda>i. ii_machine i \<noteq> m_id m) (inventoryitems d)\<rparr>"

text \<open>Lines 407 to 429, the body of \<^verbatim>\<open>if inventory_list:\<close>, for a non-empty list.\<close>

definition store_inventory :: "env \<Rightarrow> machine \<Rightarrow> string \<Rightarrow> entry list \<Rightarrow> db \<Rightarrow> db \<times> (exn + machine)" where
  "store_inventory e m inventory_str inventory_list d =
     (case inventory_meta_for m d of
        Inl x \<Rightarrow> (d, Inl x)
      | Inr meta0 \<Rightarrow>
          (let inventory_meta = meta0\<lparr>inv_sha256hash := sha256_hexdigest e inventory_str\<rparr>;
               d1 = inventoryitem_set_delete m d
           in case insert_items m inventory_list d1 of
                (d2, Some x) \<Rightarrow> (d2, Inl x)
              | (d2, None) \<Rightarrow>
                  (inventory_save inventory_meta d2,
                   Inr (m\<lparr>m_last_inventory_update := Some (now e)\<rparr>))))"

definition inventory_submit :: "env \<Rightarrow> request \<Rightarrow> db \<Rightarrow> db \<times> (exn + response)" where
  "inventory_submit e request d =
     (if req_method request \<noteq> ''POST'' then (d, Inr (HttpResponseNotFound ''No POST data sent''))
      else case post_serial request of
        None \<Rightarrow> (d, Inr (HttpResponse no_inventory_submitted))
      | Some serial \<Rightarrow>
          if serial = [] then (d, Inr (HttpResponse no_inventory_submitted))
          else case objects_get (\<lambda>m. m_serial m = serial) (machines d) of
            Inl DoesNotExist \<Rightarrow> (d, Inr (HttpResponseNotFound ''Serial Number not found''))
          | Inl x \<Rightarrow> (d, Inl x)
          | Inr m \<Rightarrow>
              (case post_base64bz2inventory request of
                 None \<Rightarrow> (d, Inr (HttpResponse no_inventory_submitted))
               | Some compressed_inventory \<Rightarrow>
                   if compressed_inventory = [] then (d, Inr (HttpResponse no_inventory_submitted))
                   else
                     let inventory_str = decode_to_string e (replace_space_plus compressed_inventory);
                         inventory_list = readPlistFromString e inventory_str
                     in case inventory_list of
                          Some (item # items) \<Rightarrow>
                            (case store_inventory e m inventory_str (item # items) d of
                               (d1, Inl x) \<Rightarrow> (d1, Inl x)
                             | (d1, Inr m1) \<Rightarrow>
                                 (machine_save m1 d1, Inr (HttpResponse (inventory_submitted_for serial))))
                        | _ \<Rightarrow> (machine_save m d, Inr (HttpResponse (inventory_submitted_for serial)))))"

section \<open>Inventory hash lookup\<close>

definition inventory_hash :: "string option \<Rightarrow> db \<Rightarrow> exn + response" where
  "inventory_hash serial d =
     (case serial of
        None \<Rightarrow> Inr (HttpResponse ''MACHINE NOT FOUND'')
      | Some s \<Rightarrow>
          if s = [] then Inr (HttpResponse ''MACHINE NOT FOUND'')
          else case objects_get (\<lambda>m. m_serial m = s) (machines d) of
            Inl DoesNotExist \<Rightarrow> Inr (HttpResponse [])
          | Inl x \<Rightarrow> Inl x
          | Inr m \<Rightarrow>
              (case objects_get (\<lambda>r. inv_machine r = m_id m) (inventories d) of
                 Inl DoesNotExist \<Rightarrow> Inr (HttpResponse [])
               | Inl x \<Rightarrow> Inl x
               | Inr inventory_meta \<Rightarrow> Inr (HttpResponse (inv_sha256hash inventory_meta))))"

section \<open>Consistency of the stored tables\<close>

text \<open>
  The constraints of the schema: primary keys are unique and come from the table's
  counter, an application is unique on its identifying triple, a machine has at most
  one hash record.
\<close>

definition app_key :: "application \<Rightarrow> string \<times> string \<times> string" where
  "app_key a = (app_bundleid a, app_name a, app_bundlename a)"

definition apps_ok :: "db \<Rightarrow> bool" where
  "apps_ok d =
     (distinct (map app_id (applications d)) \<and> distinct (map app_key (applications d)) \<and>
      (\<forall>a \<in> set (applications d). app_id a < next_application_id d))"

definition inventories_ok :: "db \<Rightarrow> bool" where
  "inventories_ok d =
     (distinct (map inv_id (inventories d)) \<and> distinct (map inv_machine (inventories d)) \<and>
      (\<forall>r \<in> set (inventories d). \<exists>k. inv_id r = Some k \<and> k < next_inventory_id d))"

definition machines_ok :: "db \<Rightarrow> bool" where
  "machines_ok d = distinct (map m_id (machines d))"

text \<open>What an inventory item says, with its application resolved, and what an entry says.\<close>

definition item_view :: "db \<Rightarrow> inventoryitem \<Rightarrow> (string \<times> string \<times> string) option \<times> string \<times> string" where
  "item_view d i =
     (map_option app_key (find (\<lambda>a. app_id a = ii_application i) (applications d)),
      ii_version i, ii_path i)"

definition entry_key :: "entry \<Rightarrow> string \<times> string \<times> string" where
  "entry_key item =
     (dict_get item ''bundleid'' [], dict_get item ''name'' [], dict_get item ''CFBundleName'' [])"

definition entry_view :: "entry \<Rightarrow> (string \<times> string \<times> string) option \<times> string \<times> string" where
  "entry_view item =
     (Some (entry_key item), dict_get item ''version'' [], dict_get item ''path'' [])"

definition machine_items :: "db \<Rightarrow> machine \<Rightarrow> inventoryitem list" where
  "machine_items d m = filter (\<lambda>i. ii_machine i = m_id m) (inventoryitems d)"

section \<open>Example data\<close>

text \<open>
  One business unit, one machine group and one machine with a stored inventory, and
  stand-ins for the decoder, the parser and the hash function that tell a few payloads
  apart.
\<close>

definition example_db :: db where
  "example_db =
     \<lparr>business_units = [\<lparr>bu_id = 1, bu_name = ''HQ''\<rparr>],
      machine_groups = [\<lparr>mg_id = 1, mg_business_unit = 1\<rparr>],
      machines = [\<lparr>m_id = 1, m_serial = ''ABC123'', m_hostname = ''mac1'', m_machine_group = 1,
                   m_last_inventory_update = None\<rparr>],
      applications = [\<lparr>app_id = 1, app_bundleid = ''com.foo.App'', app_name = ''App'',
                       app_bundlename = ''App''\<rparr>],
      inventoryitems = [\<lparr>ii_id = 1, ii_machine = 1, ii_application = 1, ii_version = ''1.0'',
                         ii_path = ''/Applications/App.app''\<rparr>],
      inventories = [\<lparr>inv_id = Some 1, inv_machine = 1, inv_sha256hash = ''old''\<rparr>],
      next_application_id = 2, next_inventoryitem_id = 2, next_inventory_id = 2\<rparr>"

definition example_env :: env where
  "example_env =
     \<lparr>decode_to_string = (\<lambda>s. s),
      readPlistFromString = (\<lambda>s.
         if s = ''empty'' then Some []
         else if s = ''proxy'' then
           Some [[(''bundleid'', ''com.apple.print.PrinterProxy''), (''name'', ''PrinterProxy'')]]
         else if s = ''new'' then
           Some [[(''bundleid'', ''com.bar.Tool''), (''name'', ''Tool''), (''version'', ''2.1'')]]
         else None),
      sha256_hexdigest = (\<lambda>s. ''sha256:'' @ s),
      now = 42\<rparr>"

definition example_request :: "string \<Rightarrow> request" where
  "example_request payload =
     \<lparr>req_method = ''POST'', post_serial = Some ''ABC123'',
      post_base64bz2inventory = Some payload\<rparr>"

section \<open>Facts about the object manager\<close>

lemma objects_get_Inr:
  "objects_get P rows = Inr r \<Longrightarrow> filter P rows = [r]"
  by (auto simp: objects_get_def split: list.splits)

lemma objects_get_Inr_mem:
  assumes "objects_get P rows = Inr r"
  shows "r \<in> set rows" and "P r"
proof -
  have "r \<in> set (filter P rows)" using objects_get_Inr [OF assms] by simp
  then show "r \<in> set rows" and "P r" by simp_all
qed

lemma map_replace_same:
  "distinct (map f xs) \<Longrightarrow> x \<in> set xs \<Longrightarrow> map (\<lambda>r. if f r = f x then x else r) xs = xs"
  by (rule map_idI) (auto simp: distinct_map inj_on_def)

lemma machine_save_same:
  "machines_ok d \<Longrightarrow> m \<in> set (machines d) \<Longrightarrow> machine_save m d = d"
  by (auto simp: machine_save_def machines_ok_def map_replace_same)

lemma get_object_or_404_Inr:
  assumes "get_object_or_404 P rows = Inr r"
  shows "r \<in> set rows" and "P r"
proof -
  have "objects_get P rows = Inr r"
    using assms by (auto simp: get_object_or_404_def split: sum.splits exn.splits)
  then show "r \<in> set rows" and "P r" by (rule objects_get_Inr_mem)+
qed

lemma get_group_instance_machine:
  assumes "get_group_instance d ''machine'' k = Inr (Some (GMachine m))"
  shows "m \<in> set (machines d)" and "m_id m = k"
proof -
  have "get_object_or_404 (\<lambda>m. m_id m = k) (machines d) = Inr m"
    using assms by (cases "get_object_or_404 (\<lambda>m. m_id m = k) (machines d)")
      (simp_all add: get_group_instance_def classes_def)
  then show "m \<in> set (machines d)" and "m_id m = k" by (rule get_object_or_404_Inr)+
qed

lemma get_group_instance_machine_group:
  assumes "get_group_instance d ''machine_group'' k = Inr (Some (GMachineGroup g))"
  shows "g \<in> set (machine_groups d)" and "mg_id g = k"
proof -
  have "get_object_or_404 (\<lambda>g. mg_id g = k) (machine_groups d) = Inr g"
    using assms by (cases "get_object_or_404 (\<lambda>g. mg_id g = k) (machine_groups d)")
      (simp_all add: get_group_instance_def classes_def)
  then show "g \<in> set (machine_groups d)" and "mg_id g = k" by (rule get_object_or_404_Inr)+
qed

lemma get_group_instance_business_unit:
  assumes "get_group_instance d ''business_unit'' k = Inr (Some (GBusinessUnit b))"
  shows "bu_id b = k"
proof -
  have "get_object_or_404 (\<lambda>b. bu_id b = k) (business_units d) = Inr b"
    using assms by (cases "get_object_or_404 (\<lambda>b. bu_id b = k) (business_units d)")
      (simp_all add: get_group_instance_def classes_def)
  then show ?thesis by (rule get_object_or_404_Inr)
qed

lemma get_group_instance_all: "get_group_instance d ''all'' k = Inr None"
  by (simp add: get_group_instance_def classes_def)

lemma machine_scope_in_group_scope:
  assumes "m \<in> set (machines d)" and "mg_id g = m_machine_group m"
    and "ii_machine i = m_id m"
  shows "machine__machine_group d g i"
  using assms by (auto simp: machine__machine_group_def)

lemma group_scope_in_unit_scope:
  assumes "g \<in> set (machine_groups d)" and "bu_id b = mg_business_unit g"
    and "machine__machine_group d g i"
  shows "machine__machine_group__business_unit d b i"
proof -
  obtain m where m: "m \<in> set (machines d)" "m_id m = ii_machine i" "m_machine_group m = mg_id g"
    using assms(3) unfolding machine__machine_group_def by blast
  have "mg_id g = m_machine_group m \<and> mg_business_unit g = bu_id b"
    using m(3) assms(2) by simp
  then have "\<exists>g \<in> set (machine_groups d). mg_id g = m_machine_group m \<and> mg_business_unit g = bu_id b"
    using assms(1) by blast
  then show ?thesis
    unfolding machine__machine_group__business_unit_def using m(1,2) by blast
qed

lemma set_filter_by_field_mono:
  "set xs \<subseteq> set ys \<Longrightarrow> set (filter_by_field t v xs) \<subseteq> set (filter_by_field t v ys)"
  by (auto simp: filter_by_field_def)

lemma set_filter_by_field_subset: "set (filter_by_field t v xs) \<subseteq> set xs"
  by (auto simp: filter_by_field_def)

lemma filtered_queryset_subset:
  assumes "filtered_queryset d gt gid aid ft fv = Inr qs"
  shows "set qs \<subseteq> set (inventoryitems d)"
proof -
  obtain q0 and a :: application where q0: "filter_inventoryitem_by_group d gt gid (inventoryitems d) = Inr q0"
    and qs: "qs = filter_by_field ft fv (filter (\<lambda>i. ii_application i = app_id a) q0)"
    using assms by (auto simp: filtered_queryset_def split: sum.splits)
  have "set q0 \<subseteq> set (inventoryitems d)"
    using q0 by (auto simp: filter_inventoryitem_by_group_def
                  split: sum.splits option.splits group_instance.splits)
  moreover have "set qs \<subseteq> set q0"
    using set_filter_by_field_subset [of ft fv] unfolding qs by fastforce
  ultimately show ?thesis by blast
qed

lemma distinct_on_keys: "key ` set (distinct_on key xs) = key ` set xs"
proof (induction key xs rule: distinct_on.induct)
  case (1 key)
  then show ?case by simp
next
  case (2 key x xs)
  then show ?case by auto
qed

section \<open>Facts about the submission handler\<close>

lemma filter_distinct_key:
  "distinct (map f xs) \<Longrightarrow>
     (filter (\<lambda>x. f x = k) xs = [] \<and> k \<notin> f ` set xs) \<or>
     (\<exists>a. filter (\<lambda>x. f x = k) xs = [a] \<and> a \<in> set xs \<and> f a = k)"
proof (induction xs)
  case Nil
  then show ?case by simp
next
  case (Cons x xs)
  show ?case
  proof (cases "f x = k")
    case True
    then have "k \<notin> f ` set xs" using Cons.prems by auto
    then have "filter (\<lambda>x. f x = k) xs = []" by (auto simp: filter_empty_conv)
    then show ?thesis using True by simp
  next
    case False
    then show ?thesis using Cons by auto
  qed
qed

lemma objects_get_distinct_key:
  assumes "distinct (map f xs)"
  shows "(objects_get (\<lambda>x. f x = k) xs = Inl DoesNotExist \<and> k \<notin> f ` set xs) \<or>
         (\<exists>a. objects_get (\<lambda>x. f x = k) xs = Inr a \<and> a \<in> set xs \<and> f a = k)"
  using filter_distinct_key [OF assms, of k] by (auto simp: objects_get_def)

lemma find_distinct_key:
  "distinct (map f xs) \<Longrightarrow> a \<in> set xs \<Longrightarrow> find (\<lambda>x. f x = f a) xs = Some a"
  by (induction xs) (auto simp: rev_image_eqI)

lemma get_or_create_by_key:
  "get_or_create b n bn d =
     (case objects_get (\<lambda>a. app_key a = (b, n, bn)) (applications d) of
        Inr a \<Rightarrow> (d, Inr a)
      | Inl DoesNotExist \<Rightarrow>
          (d\<lparr>applications := applications d @
                [\<lparr>app_id = next_application_id d, app_bundleid = b, app_name = n, app_bundlename = bn\<rparr>],
             next_application_id := Suc (next_application_id d)\<rparr>,
           Inr \<lparr>app_id = next_application_id d, app_bundleid = b, app_name = n, app_bundlename = bn\<rparr>)
      | Inl e \<Rightarrow> (d, Inl e))"
  by (simp add: get_or_create_def app_key_def Let_def split: sum.splits exn.splits)

lemma get_or_create_ok:
  assumes "apps_ok d"
  shows "\<exists>a d1. get_or_create b n bn d = (d1, Inr a) \<and> apps_ok d1 \<and>
           a \<in> set (applications d1) \<and> app_key a = (b, n, bn) \<and>
           set (applications d) \<subseteq> set (applications d1) \<and>
           set (applications d1) \<subseteq> insert a (set (applications d)) \<and>
           inventoryitems d1 = inventoryitems d \<and> next_inventoryitem_id d1 = next_inventoryitem_id d \<and>
           inventories d1 = inventories d \<and> next_inventory_id d1 = next_inventory_id d \<and>
           machines d1 = machines d"
proof -
  have dk: "distinct (map app_key (applications d))" using assms by (simp add: apps_ok_def)
  from objects_get_distinct_key [OF dk, of "(b, n, bn)"]
  show ?thesis
  proof (elim disjE conjE exE)
    assume g: "objects_get (\<lambda>x. app_key x = (b, n, bn)) (applications d) = Inl DoesNotExist"
      and fresh: "(b, n, bn) \<notin> app_key ` set (applications d)"
    let ?a = "\<lparr>app_id = next_application_id d, app_bundleid = b, app_name = n, app_bundlename = bn\<rparr>"
    let ?d1 = "d\<lparr>applications := applications d @ [?a],
                  next_application_id := Suc (next_application_id d)\<rparr>"
    have eq: "get_or_create b n bn d = (?d1, Inr ?a)" by (simp add: get_or_create_by_key g)
    have key: "app_key ?a = (b, n, bn)" by (simp add: app_key_def)
    have "next_application_id d \<notin> app_id ` set (applications d)"
      using assms by (auto simp: apps_ok_def)
    then have "apps_ok ?d1"
      using assms fresh key by (auto simp: apps_ok_def less_Suc_eq)
    then show ?thesis using eq key by auto
  next
    fix a assume g: "objects_get (\<lambda>x. app_key x = (b, n, bn)) (applications d) = Inr a"
      and a: "a \<in> set (applications d)" "app_key a = (b, n, bn)"
    have "get_or_create b n bn d = (d, Inr a)" by (simp add: get_or_create_by_key g)
    then show ?thesis using assms a by auto
  qed
qed

lemma item_view_found:
  assumes "apps_ok d" and "a \<in> set (applications d)"
  shows "item_view d \<lparr>ii_id = k, ii_machine = mid, ii_application = app_id a,
                      ii_version = v, ii_path = p\<rparr> = (Some (app_key a), v, p)"
proof -
  have "distinct (map app_id (applications d))" using assms(1) by (simp add: apps_ok_def)
  then have "find (\<lambda>x. app_id x = app_id a) (applications d) = Some a"
    using assms(2) by (rule find_distinct_key)
  then show ?thesis by (simp add: item_view_def)
qed

lemma inventoryitem_create_fields:
  "applications (inventoryitem_create m a v p d) = applications d"
  "next_application_id (inventoryitem_create m a v p d) = next_application_id d"
  "inventories (inventoryitem_create m a v p d) = inventories d"
  "next_inventory_id (inventoryitem_create m a v p d) = next_inventory_id d"
  "machines (inventoryitem_create m a v p d) = machines d"
  "inventoryitems (inventoryitem_create m a v p d) = inventoryitems d @
     [\<lparr>ii_id = next_inventoryitem_id d, ii_machine = m_id m, ii_application = app_id a,
       ii_version = v, ii_path = p\<rparr>]"
  by (simp_all add: inventoryitem_create_def)

lemma insert_items_result:
  assumes "apps_ok d"
  shows "\<exists>d' new. insert_items m items d = (d', None) \<and> apps_ok d' \<and>
           set (applications d) \<subseteq> set (applications d') \<and>
           (\<forall>a \<in> set (applications d'). a \<in> set (applications d) \<or> app_key a \<in> entry_key ` set items) \<and>
           (\<forall>item \<in> set items. \<exists>a \<in> set (applications d'). app_key a = entry_key item) \<and>
           inventoryitems d' = inventoryitems d @ new \<and>
           (\<forall>i \<in> set new. ii_machine i = m_id m) \<and>
           map (item_view d') new = map entry_view (filter (\<lambda>item. \<not> ignored item) items) \<and>
           inventories d' = inventories d \<and> next_inventory_id d' = next_inventory_id d \<and>
           machines d' = machines d"
  using assms
proof (induction items arbitrary: d)
  case Nil
  then show ?case by simp
next
  case (Cons item items)
  let ?v = "dict_get item ''version'' []" and ?p = "dict_get item ''path'' []"
  obtain a d1 where goc: "get_or_create (dict_get item ''bundleid'' []) (dict_get item ''name'' [])
                            (dict_get item ''CFBundleName'' []) d = (d1, Inr a)"
    and ok1: "apps_ok d1" and a1: "a \<in> set (applications d1)"
    and key0: "app_key a = (dict_get item ''bundleid'' [], dict_get item ''name'' [],
                            dict_get item ''CFBundleName'' [])"
    and sub1: "set (applications d) \<subseteq> set (applications d1)"
    and sup1: "set (applications d1) \<subseteq> insert a (set (applications d))"
    and same1: "inventoryitems d1 = inventoryitems d"
      "next_inventoryitem_id d1 = next_inventoryitem_id d" "inventories d1 = inventories d"
      "next_inventory_id d1 = next_inventory_id d" "machines d1 = machines d"
    using get_or_create_ok [OF Cons.prems, of "dict_get item ''bundleid'' []"
            "dict_get item ''name'' []" "dict_get item ''CFBundleName'' []"]
    by (elim exE conjE) (rule that)
  have key: "app_key a = entry_key item" using key0 by (simp add: entry_key_def)
  define d2 where "d2 = (if \<not> ignored item then inventoryitem_create m a ?v ?p d1 else d1)"
  define it where "it = \<lparr>ii_id = next_inventoryitem_id d1, ii_machine = m_id m,
                          ii_application = app_id a, ii_version = ?v, ii_path = ?p\<rparr>"
  have apps2: "applications d2 = applications d1" "next_application_id d2 = next_application_id d1"
    by (simp_all add: d2_def inventoryitem_create_fields)
  have ok2: "apps_ok d2" using ok1 apps2 by (simp add: apps_ok_def)
  have same2: "inventories d2 = inventories d" "next_inventory_id d2 = next_inventory_id d"
    "machines d2 = machines d"
    using same1 by (simp_all add: d2_def inventoryitem_create_fields)
  have items2: "inventoryitems d2 = inventoryitems d @ (if \<not> ignored item then [it] else [])"
    using same1 by (simp add: d2_def it_def inventoryitem_create_fields)
  obtain d' new where run: "insert_items m items d2 = (d', None)" and ok': "apps_ok d'"
    and sub': "set (applications d2) \<subseteq> set (applications d')"
    and sup': "\<forall>a \<in> set (applications d'). a \<in> set (applications d2) \<or> app_key a \<in> entry_key ` set items"
    and keys': "\<forall>item \<in> set items. \<exists>a \<in> set (applications d'). app_key a = entry_key item"
    and items': "inventoryitems d' = inventoryitems d2 @ new"
    and mach': "\<forall>i \<in> set new. ii_machine i = m_id m"
    and view': "map (item_view d') new = map entry_view (filter (\<lambda>item. \<not> ignored item) items)"
    and same': "inventories d' = inventories d2" "next_inventory_id d' = next_inventory_id d2"
      "machines d' = machines d2"
    using Cons.IH [OF ok2] by (elim exE conjE) (rule that)
  have a': "a \<in> set (applications d')" using a1 sub' apps2 by auto
  have view_it: "item_view d' it = entry_view item"
    unfolding it_def using item_view_found [OF ok' a'] key by (simp add: entry_view_def)
  let ?new = "(if \<not> ignored item then [it] else []) @ new"
  have 1: "insert_items m (item # items) d = (d', None)"
    using goc run by (simp add: d2_def)
  have 2: "set (applications d) \<subseteq> set (applications d')" using sub1 sub' apps2 by auto
  have 3: "\<forall>x \<in> set (applications d'). x \<in> set (applications d) \<or> app_key x \<in> entry_key ` set (item # items)"
  proof
    fix x assume "x \<in> set (applications d')"
    then have "x \<in> set (applications d1) \<or> app_key x \<in> entry_key ` set items"
      using sup' apps2 by auto
    then show "x \<in> set (applications d) \<or> app_key x \<in> entry_key ` set (item # items)"
      using sup1 key by auto
  qed
  have 4: "\<forall>x \<in> set (item # items). \<exists>a \<in> set (applications d'). app_key a = entry_key x"
    using keys' a' key by auto
  have 5: "inventoryitems d' = inventoryitems d @ ?new" using items' items2 by simp
  have 6: "\<forall>i \<in> set ?new. ii_machine i = m_id m" using mach' by (auto simp: it_def)
  have 7: "map (item_view d') ?new = map entry_view (filter (\<lambda>item. \<not> ignored item) (item # items))"
    using view' view_it by simp
  have 8: "inventories d' = inventories d" "next_inventory_id d' = next_inventory_id d"
    "machines d' = machines d"
    using same' same2 by simp_all
  show ?case
    by (rule exI [of _ d'], rule exI [of _ ?new]) (intro conjI 1 ok' 2 3 4 5 6 7 8)
qed

lemma inventory_save_fields:
  "applications (inventory_save meta d) = applications d"
  "inventoryitems (inventory_save meta d) = inventoryitems d"
  "machines (inventory_save meta d) = machines d"
  by (simp_all add: inventory_save_def split: option.splits)

lemma machine_save_fields:
  "applications (machine_save m d) = applications d"
  "inventoryitems (machine_save m d) = inventoryitems d"
  "inventories (machine_save m d) = inventories d"
  by (simp_all add: machine_save_def)

lemma map_replace_by_key:
  "distinct (map f xs) \<Longrightarrow> x \<in> set xs \<Longrightarrow>
     map (\<lambda>r. if f r = f x then y else r) xs = map (\<lambda>r. if r = x then y else r) xs"
  by (rule map_cong) (auto simp: distinct_map inj_on_def)

lemma filter_map_replace:
  "P y = P x \<Longrightarrow>
     filter P (map (\<lambda>r. if r = x then y else r) xs) = map (\<lambda>r. if r = x then y else r) (filter P xs)"
  by (induction xs) auto

lemma objects_get_replaced:
  assumes "distinct (map f xs)" and "objects_get P xs = Inr x" and "P y"
  shows "objects_get P (map (\<lambda>r. if f r = f x then y else r) xs) = Inr y"
proof -
  have fx: "filter P xs = [x]" using assms(2) by (rule objects_get_Inr)
  have x: "x \<in> set xs" "P x" using assms(2) by (rule objects_get_Inr_mem)+
  have "filter P (map (\<lambda>r. if f r = f x then y else r) xs) =
          filter P (map (\<lambda>r. if r = x then y else r) xs)"
    by (simp only: map_replace_by_key [OF assms(1) x(1)])
  also have "\<dots> = map (\<lambda>r. if r = x then y else r) (filter P xs)"
    using assms(3) x(2) by (simp add: filter_map_replace)
  also have "\<dots> = [y]" by (simp add: fx)
  finally show ?thesis by (simp add: objects_get_def)
qed

lemma objects_get_appended:
  assumes "objects_get P xs = Inl DoesNotExist" and "P y"
  shows "objects_get P (xs @ [y]) = Inr y"
proof -
  have "filter P xs = []"
    using assms(1) by (auto simp: objects_get_def split: list.splits)
  then show ?thesis using assms(2) by (simp add: objects_get_def)
qed

lemma inventory_meta_for_ok:
  assumes "inventories_ok d"
  shows "(objects_get (\<lambda>r. inv_machine r = m_id m) (inventories d) = Inl DoesNotExist \<and>
          inventory_meta_for m d = Inr \<lparr>inv_id = None, inv_machine = m_id m, inv_sha256hash = []\<rparr>) \<or>
         (\<exists>r. objects_get (\<lambda>r. inv_machine r = m_id m) (inventories d) = Inr r \<and>
              inventory_meta_for m d = Inr r)"
proof -
  have "distinct (map inv_machine (inventories d))" using assms by (simp add: inventories_ok_def)
  from objects_get_distinct_key [OF this, of "m_id m"]
  show ?thesis by (auto simp: inventory_meta_for_def)
qed

lemma inventory_save_lookup:
  assumes "inventories_ok d" and "inventory_meta_for m d = Inr meta0"
    and "inventories d2 = inventories d"
  shows "\<exists>meta. objects_get (\<lambda>r. inv_machine r = m_id m)
                   (inventories (inventory_save (meta0\<lparr>inv_sha256hash := h\<rparr>) d2)) = Inr meta \<and>
                inv_sha256hash meta = h"
  using inventory_meta_for_ok [OF assms(1), of m]
proof (elim disjE conjE exE)
  assume none: "objects_get (\<lambda>r. inv_machine r = m_id m) (inventories d) = Inl DoesNotExist"
    and "inventory_meta_for m d = Inr \<lparr>inv_id = None, inv_machine = m_id m, inv_sha256hash = []\<rparr>"
  then have meta0: "meta0 = \<lparr>inv_id = None, inv_machine = m_id m, inv_sha256hash = []\<rparr>"
    using assms(2) by simp
  let ?new = "\<lparr>inv_id = Some (next_inventory_id d2), inv_machine = m_id m, inv_sha256hash = h\<rparr>"
  have "inventories (inventory_save (meta0\<lparr>inv_sha256hash := h\<rparr>) d2) = inventories d @ [?new]"
    by (simp add: inventory_save_def meta0 assms(3))
  moreover have "objects_get (\<lambda>r. inv_machine r = m_id m) (inventories d @ [?new]) = Inr ?new"
    using none by (rule objects_get_appended) simp
  ultimately show ?thesis by simp
next
  fix r assume get: "objects_get (\<lambda>r. inv_machine r = m_id m) (inventories d) = Inr r"
    and "inventory_meta_for m d = Inr r"
  then have meta0: "meta0 = r" using assms(2) by simp
  have r: "r \<in> set (inventories d)" "inv_machine r = m_id m"
    using get by (rule objects_get_Inr_mem)+
  obtain k where k: "inv_id r = Some k"
    using assms(1) r(1) by (auto simp: inventories_ok_def)
  let ?upd = "r\<lparr>inv_sha256hash := h\<rparr>"
  have "inventories (inventory_save ?upd d2) =
          map (\<lambda>x. if inv_id x = inv_id r then ?upd else x) (inventories d)"
    using r(1) k by (auto simp: inventory_save_def assms(3))
  moreover have "objects_get (\<lambda>r. inv_machine r = m_id m)
                   (map (\<lambda>x. if inv_id x = inv_id r then ?upd else x) (inventories d)) = Inr ?upd"
  proof (rule objects_get_replaced [OF _ get])
    show "distinct (map inv_id (inventories d))" using assms(1) by (simp add: inventories_ok_def)
    show "inv_machine ?upd = m_id m" using r(2) by simp
  qed
  ultimately show ?thesis by (simp add: meta0)
qed

lemma store_inventory_unfold:
  assumes "apps_ok d" and "inventory_meta_for m d = Inr meta0"
  shows "store_inventory e m str items d =
           (inventory_save (meta0\<lparr>inv_sha256hash := sha256_hexdigest e str\<rparr>)
              (fst (insert_items m items (inventoryitem_set_delete m d))),
            Inr (m\<lparr>m_last_inventory_update := Some (now e)\<rparr>))"
proof -
  have "apps_ok (inventoryitem_set_delete m d)"
    using assms(1) by (simp add: apps_ok_def inventoryitem_set_delete_def)
  from insert_items_result [OF this, of m items]
  obtain d' where "insert_items m items (inventoryitem_set_delete m d) = (d', None)" by blast
  then show ?thesis using assms(2) by (simp add: store_inventory_def)
qed

lemma inventory_submit_unfold:
  assumes "apps_ok d" and "inventory_meta_for m d = Inr meta0"
    and "req_method request = ''POST''"
    and "post_serial request = Some serial" and "serial \<noteq> []"
    and "objects_get (\<lambda>m. m_serial m = serial) (machines d) = Inr m"
    and "post_base64bz2inventory request = Some payload" and "payload \<noteq> []"
    and "readPlistFromString e (decode_to_string e (replace_space_plus payload)) = Some items"
    and "items \<noteq> []"
  shows "inventory_submit e request d =
           (machine_save (m\<lparr>m_last_inventory_update := Some (now e)\<rparr>)
              (inventory_save
                 (meta0\<lparr>inv_sha256hash :=
                    sha256_hexdigest e (decode_to_string e (replace_space_plus payload))\<rparr>)
                 (fst (insert_items m items (inventoryitem_set_delete m d)))),
            Inr (HttpResponse (inventory_submitted_for serial)))"
proof -
  obtain x xs where items: "items = x # xs" using assms(10) by (cases items) auto
  show ?thesis
    using assms(3-9) store_inventory_unfold [OF assms(1,2), of e _ items]
    by (simp add: inventory_submit_def items)
qed

lemma inventory_save_length:
  assumes "inventories_ok d" and "inventory_meta_for m d = Inr meta0"
    and "inventories d2 = inventories d"
  shows "length (inventories (inventory_save (meta0\<lparr>inv_sha256hash := h\<rparr>) d2)) =
           (if \<exists>r \<in> set (inventories d). inv_machine r = m_id m
            then length (inventories d) else Suc (length (inventories d)))"
  using inventory_meta_for_ok [OF assms(1), of m]
proof (elim disjE conjE exE)
  assume none: "objects_get (\<lambda>r. inv_machine r = m_id m) (inventories d) = Inl DoesNotExist"
    and "inventory_meta_for m d = Inr \<lparr>inv_id = None, inv_machine = m_id m, inv_sha256hash = []\<rparr>"
  then have meta0: "meta0 = \<lparr>inv_id = None, inv_machine = m_id m, inv_sha256hash = []\<rparr>"
    using assms(2) by simp
  have "filter (\<lambda>r. inv_machine r = m_id m) (inventories d) = []"
    using none by (auto simp: objects_get_def split: list.splits)
  then have "\<not> (\<exists>r \<in> set (inventories d). inv_machine r = m_id m)"
    by (simp add: filter_empty_conv)
  then show ?thesis by (simp add: inventory_save_def meta0 assms(3))
next
  fix r assume get: "objects_get (\<lambda>r. inv_machine r = m_id m) (inventories d) = Inr r"
    and "inventory_meta_for m d = Inr r"
  then have meta0: "meta0 = r" using assms(2) by simp
  have r: "r \<in> set (inventories d)" "inv_machine r = m_id m"
    using get by (rule objects_get_Inr_mem)+
  obtain k where k: "inv_id r = Some k"
    using assms(1) r(1) by (auto simp: inventories_ok_def)
  have "\<exists>x \<in> set (inventories d). inv_id x = Some k" using r(1) k by blast
  moreover have "\<exists>r \<in> set (inventories d). inv_machine r = m_id m" using r by blast
  ultimately show ?thesis by (simp add: inventory_save_def meta0 assms(3) k)
qed

lemma machine_save_lookup:
  assumes "machines_ok d" and "objects_get (\<lambda>m. m_serial m = s) (machines d) = Inr m"
    and "machines d3 = machines d"
  shows "objects_get (\<lambda>m. m_serial m = s) (machines (machine_save (m\<lparr>m_last_inventory_update := t\<rparr>) d3)) =
           Inr (m\<lparr>m_last_inventory_update := t\<rparr>)"
proof -
  let ?m1 = "m\<lparr>m_last_inventory_update := t\<rparr>"
  have m: "m \<in> set (machines d)" "m_serial m = s" using assms(2) by (rule objects_get_Inr_mem)+
  then have "\<exists>r \<in> set (machines d). m_id r = m_id m" by blast
  then have "machines (machine_save ?m1 d3) = map (\<lambda>r. if m_id r = m_id m then ?m1 else r) (machines d)"
    by (simp add: machine_save_def assms(3))
  moreover have "objects_get (\<lambda>m. m_serial m = s)
                   (map (\<lambda>r. if m_id r = m_id m then ?m1 else r) (machines d)) = Inr ?m1"
  proof (rule objects_get_replaced [OF _ assms(2)])
    show "distinct (map m_id (machines d))" using assms(1) by (simp add: machines_ok_def)
    show "m_serial ?m1 = s" using m(2) by simp
  qed
  ultimately show ?thesis by simp
qed

lemma inventoryitem_set_delete_fields:
  "applications (inventoryitem_set_delete m d) = applications d"
  "next_application_id (inventoryitem_set_delete m d) = next_application_id d"
  "inventories (inventoryitem_set_delete m d) = inventories d"
  "machines (inventoryitem_set_delete m d) = machines d"
  "inventoryitems (inventoryitem_set_delete m d) =
     filter (\<lambda>i. ii_machine i \<noteq> m_id m) (inventoryitems d)"
  by (simp_all add: inventoryitem_set_delete_def)

lemma filter_own_items:
  assumes "\<forall>i \<in> set new. ii_machine i = k"
  shows "filter (\<lambda>i. ii_machine i = k) (filter (\<lambda>i. ii_machine i \<noteq> k) xs @ new) = new"
proof -
  have "filter (\<lambda>i. ii_machine i = k) (filter (\<lambda>i. ii_machine i \<noteq> k) xs) = []"
    by (simp add: filter_empty_conv)
  moreover have "filter (\<lambda>i. ii_machine i = k) new = new" using assms by (simp add: filter_id_conv)
  ultimately show ?thesis by simp
qed

section \<open>Claims\<close>

text \<open>
  C10. A submission whose payload parses to an empty list is handled like one that did
  not parse: the stored tables are left as they were (no inventory item is deleted, no
  hash record is created or updated, the machine's last-inventory-update time stays),
  and the response still acknowledges the submission by naming the serial.
\<close>

theorem submit_empty_list_changes_nothing:
  assumes "machines_ok d"
    and "req_method request = ''POST''"
    and "post_serial request = Some serial" and "serial \<noteq> []"
    and "objects_get (\<lambda>m. m_serial m = serial) (machines d) = Inr m"
    and "post_base64bz2inventory request = Some payload" and "payload \<noteq> []"
    and "readPlistFromString e (decode_to_string e (replace_space_plus payload)) = Some []"
  shows "inventory_submit e request d = (d, Inr (HttpResponse (inventory_submitted_for serial)))"
proof -
  have "m \<in> set (machines d)" using assms(5) by (rule objects_get_Inr_mem)
  then have "machine_save m d = d" using assms(1) by (simp add: machine_save_same)
  then show ?thesis using assms by (simp add: inventory_submit_def)
qed

theorem submit_empty_list_changes_nothing_witness:
  "inventory_submit example_env (example_request ''empty'') example_db =
     (example_db, Inr (HttpResponse (inventory_submitted_for ''ABC123'')))"
  by (rule submit_empty_list_changes_nothing
        [where m = "hd (machines example_db)" and payload = "''empty''"])
     (simp_all add: example_db_def example_env_def example_request_def machines_ok_def
        objects_get_def replace_space_plus_def)

text \<open>
  C2, as the code has it. A submission with a resolvable serial and a non-empty payload
  field that does not parse is not failed and leaves every table as it was: no inventory
  item is deleted or created and no hash record is created or updated. The response is
  the acknowledgement naming the serial (status 200), not the "No inventory submitted"
  text.
\<close>

theorem submit_unparsable_changes_nothing:
  assumes "machines_ok d"
    and "req_method request = ''POST''"
    and "post_serial request = Some serial" and "serial \<noteq> []"
    and "objects_get (\<lambda>m. m_serial m = serial) (machines d) = Inr m"
    and "post_base64bz2inventory request = Some payload" and "payload \<noteq> []"
    and "readPlistFromString e (decode_to_string e (replace_space_plus payload)) = None"
  shows "inventory_submit e request d =
           (d, Inr \<lparr>status = 200, body = inventory_submitted_for serial\<rparr>)"
proof -
  have "m \<in> set (machines d)" using assms(5) by (rule objects_get_Inr_mem)
  then have "machine_save m d = d" using assms(1) by (simp add: machine_save_same)
  then show ?thesis using assms by (simp add: inventory_submit_def HttpResponse_def)
qed

theorem submit_unparsable_changes_nothing_witness:
  "inventory_submit example_env (example_request ''garbage'') example_db =
     (example_db, Inr \<lparr>status = 200, body = inventory_submitted_for ''ABC123''\<rparr>)"
  by (rule submit_unparsable_changes_nothing
        [where m = "hd (machines example_db)" and payload = "''garbage''"])
     (simp_all add: example_db_def example_env_def example_request_def machines_ok_def
        objects_get_def replace_space_plus_def)

text \<open>
  The response to an unparsable payload differs from the response to a request that
  carries no payload field.
\<close>

theorem submit_unparsable_response_counterexample:
  "snd (inventory_submit example_env (example_request ''garbage'') example_db) \<noteq>
   snd (inventory_submit example_env
          \<lparr>req_method = ''POST'', post_serial = Some ''ABC123'', post_base64bz2inventory = None\<rparr>
          example_db)"
  by (simp add: inventory_submit_def example_db_def example_env_def example_request_def
        objects_get_def replace_space_plus_def machine_save_def HttpResponse_def
        inventory_submitted_for_def no_inventory_submitted_def)

text \<open>
  C9, as the code has it. A request that is not a POST is answered with status 404 and
  changes nothing. A POST with a non-empty serial that no machine has is answered with
  status 404 and "Serial Number not found", and changes nothing. A POST with no serial,
  or an empty one, is not failed: nothing is processed, nothing changes, and the answer
  is status 200 with "No inventory submitted".
\<close>

theorem submit_requires_post_and_known_serial:
  "(req_method request \<noteq> ''POST'' \<longrightarrow>
      inventory_submit e request d = (d, Inr \<lparr>status = 404, body = ''No POST data sent''\<rparr>)) \<and>
   (req_method request = ''POST'' \<and> post_serial request = Some serial \<and> serial \<noteq> [] \<and>
      (\<forall>m \<in> set (machines d). m_serial m \<noteq> serial) \<longrightarrow>
      inventory_submit e request d = (d, Inr \<lparr>status = 404, body = ''Serial Number not found''\<rparr>)) \<and>
   (req_method request = ''POST'' \<and> (post_serial request = None \<or> post_serial request = Some []) \<longrightarrow>
      inventory_submit e request d = (d, Inr \<lparr>status = 200, body = no_inventory_submitted\<rparr>))"
proof (intro conjI impI)
  assume "req_method request \<noteq> ''POST''"
  then show "inventory_submit e request d = (d, Inr \<lparr>status = 404, body = ''No POST data sent''\<rparr>)"
    by (simp add: inventory_submit_def HttpResponseNotFound_def)
next
  assume a: "req_method request = ''POST'' \<and> post_serial request = Some serial \<and> serial \<noteq> [] \<and>
      (\<forall>m \<in> set (machines d). m_serial m \<noteq> serial)"
  then have "filter (\<lambda>m. m_serial m = serial) (machines d) = []"
    by (simp add: filter_empty_conv)
  then have "objects_get (\<lambda>m. m_serial m = serial) (machines d) = Inl DoesNotExist"
    by (simp add: objects_get_def)
  then show "inventory_submit e request d = (d, Inr \<lparr>status = 404, body = ''Serial Number not found''\<rparr>)"
    using a by (simp add: inventory_submit_def HttpResponseNotFound_def)
next
  assume "req_method request = ''POST'' \<and> (post_serial request = None \<or> post_serial request = Some [])"
  then show "inventory_submit e request d = (d, Inr \<lparr>status = 200, body = no_inventory_submitted\<rparr>)"
    by (auto simp: inventory_submit_def HttpResponse_def)
qed

theorem submit_requires_post_and_known_serial_witness:
  "inventory_submit example_env ((example_request ''new'')\<lparr>req_method := ''GET''\<rparr>) example_db =
     (example_db, Inr \<lparr>status = 404, body = ''No POST data sent''\<rparr>) \<and>
   inventory_submit example_env ((example_request ''new'')\<lparr>post_serial := Some ''XYZ''\<rparr>) example_db =
     (example_db, Inr \<lparr>status = 404, body = ''Serial Number not found''\<rparr>) \<and>
   inventory_submit example_env ((example_request ''new'')\<lparr>post_serial := Some []\<rparr>) example_db =
     (example_db, Inr \<lparr>status = 200, body = no_inventory_submitted\<rparr>)"
  using submit_requires_post_and_known_serial
          [of "(example_request ''new'')\<lparr>req_method := ''GET''\<rparr>" example_env example_db "''XYZ''"]
        submit_requires_post_and_known_serial
          [of "(example_request ''new'')\<lparr>post_serial := Some ''XYZ''\<rparr>" example_env example_db "''XYZ''"]
        submit_requires_post_and_known_serial
          [of "(example_request ''new'')\<lparr>post_serial := Some []\<rparr>" example_env example_db "''XYZ''"]
  by (simp add: example_request_def example_db_def)

text \<open>
  A POST that carries no serial, or an empty one, is not failed: it is answered with
  status 200.
\<close>

theorem submit_empty_serial_counterexample:
  "inventory_submit example_env
     \<lparr>req_method = ''POST'', post_serial = None, post_base64bz2inventory = Some ''new''\<rparr>
     example_db =
     (example_db, Inr \<lparr>status = 200, body = ''No inventory submitted.'' @ [CHR 0x0A]\<rparr>) \<and>
   inventory_submit example_env
     \<lparr>req_method = ''POST'', post_serial = Some [], post_base64bz2inventory = Some ''new''\<rparr>
     example_db =
     (example_db, Inr \<lparr>status = 200, body = ''No inventory submitted.'' @ [CHR 0x0A]\<rparr>)"
  by (simp add: inventory_submit_def HttpResponse_def no_inventory_submitted_def)

text \<open>
  C6. The hash lookup answers with the stored hash when the serial is non-empty and
  resolves to a machine that has a hash record, with the empty string when the serial
  is non-empty and no machine has it or the machine has no hash record, and with the
  fixed text "MACHINE NOT FOUND" when the serial is empty or absent.
\<close>

theorem inventory_hash_cases:
  "(serial \<noteq> [] \<and> objects_get (\<lambda>m. m_serial m = serial) (machines d) = Inr m \<and>
      objects_get (\<lambda>r. inv_machine r = m_id m) (inventories d) = Inr meta \<longrightarrow>
      inventory_hash (Some serial) d = Inr \<lparr>status = 200, body = inv_sha256hash meta\<rparr>) \<and>
   (serial \<noteq> [] \<and> (\<forall>m \<in> set (machines d). m_serial m \<noteq> serial) \<longrightarrow>
      inventory_hash (Some serial) d = Inr \<lparr>status = 200, body = []\<rparr>) \<and>
   (serial \<noteq> [] \<and> objects_get (\<lambda>m. m_serial m = serial) (machines d) = Inr m \<and>
      (\<forall>r \<in> set (inventories d). inv_machine r \<noteq> m_id m) \<longrightarrow>
      inventory_hash (Some serial) d = Inr \<lparr>status = 200, body = []\<rparr>) \<and>
   inventory_hash (Some []) d = Inr \<lparr>status = 200, body = ''MACHINE NOT FOUND''\<rparr> \<and>
   inventory_hash None d = Inr \<lparr>status = 200, body = ''MACHINE NOT FOUND''\<rparr>"
proof -
  have none: "objects_get P rows = Inl DoesNotExist" if "\<forall>r \<in> set rows. \<not> P r"
    for P :: "'a \<Rightarrow> bool" and rows
  proof -
    have "filter P rows = []" using that by (simp add: filter_empty_conv)
    then show ?thesis by (simp add: objects_get_def)
  qed
  show ?thesis
    by (auto simp: inventory_hash_def HttpResponse_def none)
qed

theorem inventory_hash_cases_witness:
  "inventory_hash (Some ''ABC123'') example_db = Inr \<lparr>status = 200, body = ''old''\<rparr> \<and>
   inventory_hash (Some ''XYZ'') example_db = Inr \<lparr>status = 200, body = []\<rparr> \<and>
   inventory_hash (Some ''ABC123'') (example_db\<lparr>inventories := []\<rparr>) = Inr \<lparr>status = 200, body = []\<rparr> \<and>
   inventory_hash (Some []) example_db = Inr \<lparr>status = 200, body = ''MACHINE NOT FOUND''\<rparr> \<and>
   inventory_hash None example_db = Inr \<lparr>status = 200, body = ''MACHINE NOT FOUND''\<rparr>"
  using inventory_hash_cases
          [of "''ABC123''" example_db "hd (machines example_db)" "hd (inventories example_db)"]
        inventory_hash_cases
          [of "''XYZ''" example_db "hd (machines example_db)" "hd (inventories example_db)"]
        inventory_hash_cases
          [of "''ABC123''" "example_db\<lparr>inventories := []\<rparr>" "hd (machines example_db)"
              "hd (inventories example_db)"]
  by (simp add: example_db_def objects_get_def)

text \<open>
  C7. With the application and field filters fixed, for a machine, the machine group
  it belongs to and the business unit of that group, the result of the machine scope
  is contained in the result of the machine-group scope, that one in the result of the
  business-unit scope, and that one in the result of the "all" scope.
\<close>

theorem scope_filtering_monotonic:
  assumes "get_group_instance d ''machine'' k = Inr (Some (GMachine m))"
    and "get_group_instance d ''machine_group'' (m_machine_group m) = Inr (Some (GMachineGroup g))"
    and "get_group_instance d ''business_unit'' (mg_business_unit g) = Inr (Some (GBusinessUnit b))"
    and "get_object_or_404 (\<lambda>a. app_id a = aid) (applications d) = Inr a"
  shows "\<exists>r_machine r_group r_unit r_all.
           filtered_queryset d ''machine'' k aid ft fv = Inr r_machine \<and>
           filtered_queryset d ''machine_group'' (m_machine_group m) aid ft fv = Inr r_group \<and>
           filtered_queryset d ''business_unit'' (mg_business_unit g) aid ft fv = Inr r_unit \<and>
           filtered_queryset d ''all'' any aid ft fv = Inr r_all \<and>
           set r_machine \<subseteq> set r_group \<and> set r_group \<subseteq> set r_unit \<and> set r_unit \<subseteq> set r_all"
proof -
  let ?items = "inventoryitems d"
  let ?app = "filter (\<lambda>i. ii_application i = app_id a)"
  let ?q_machine = "filter (\<lambda>i. ii_machine i = m_id m) ?items"
  let ?q_group = "filter (machine__machine_group d g) ?items"
  let ?q_unit = "filter (machine__machine_group__business_unit d b) ?items"
  note m = get_group_instance_machine [OF assms(1)]
  note g = get_group_instance_machine_group [OF assms(2)]
  note b = get_group_instance_business_unit [OF assms(3)]
  have 1: "filtered_queryset d ''machine'' k aid ft fv = Inr (filter_by_field ft fv (?app ?q_machine))"
    using assms(1,4) by (simp add: filtered_queryset_def filter_inventoryitem_by_group_def)
  have 2: "filtered_queryset d ''machine_group'' (m_machine_group m) aid ft fv =
             Inr (filter_by_field ft fv (?app ?q_group))"
    using assms(2,4) by (simp add: filtered_queryset_def filter_inventoryitem_by_group_def)
  have 3: "filtered_queryset d ''business_unit'' (mg_business_unit g) aid ft fv =
             Inr (filter_by_field ft fv (?app ?q_unit))"
    using assms(3,4) by (simp add: filtered_queryset_def filter_inventoryitem_by_group_def)
  have 4: "filtered_queryset d ''all'' any aid ft fv = Inr (filter_by_field ft fv (?app ?items))"
    using assms(4)
    by (simp add: filtered_queryset_def filter_inventoryitem_by_group_def get_group_instance_all)
  have "set (?app ?q_machine) \<subseteq> set (?app ?q_group)"
    using machine_scope_in_group_scope [OF m(1) g(2)] by auto
  then have s1: "set (filter_by_field ft fv (?app ?q_machine)) \<subseteq> set (filter_by_field ft fv (?app ?q_group))"
    by (rule set_filter_by_field_mono)
  have "set (?app ?q_group) \<subseteq> set (?app ?q_unit)"
    using group_scope_in_unit_scope [OF g(1) b] by auto
  then have s2: "set (filter_by_field ft fv (?app ?q_group)) \<subseteq> set (filter_by_field ft fv (?app ?q_unit))"
    by (rule set_filter_by_field_mono)
  have "set (?app ?q_unit) \<subseteq> set (?app ?items)" by auto
  then have s3: "set (filter_by_field ft fv (?app ?q_unit)) \<subseteq> set (filter_by_field ft fv (?app ?items))"
    by (rule set_filter_by_field_mono)
  show ?thesis using 1 2 3 4 s1 s2 s3 by blast
qed

theorem scope_filtering_monotonic_witness:
  "\<exists>r_machine r_group r_unit r_all.
     filtered_queryset example_db ''machine'' 1 1 ''version'' ''1.0'' = Inr r_machine \<and>
     filtered_queryset example_db ''machine_group'' 1 1 ''version'' ''1.0'' = Inr r_group \<and>
     filtered_queryset example_db ''business_unit'' 1 1 ''version'' ''1.0'' = Inr r_unit \<and>
     filtered_queryset example_db ''all'' 0 1 ''version'' ''1.0'' = Inr r_all \<and>
     set r_machine \<subseteq> set r_group \<and> set r_group \<subseteq> set r_unit \<and> set r_unit \<subseteq> set r_all"
proof -
  have 1: "get_group_instance example_db ''machine'' 1 = Inr (Some (GMachine (hd (machines example_db))))"
    by (simp add: get_group_instance_def classes_def get_object_or_404_def objects_get_def example_db_def)
  have 2: "get_group_instance example_db ''machine_group'' (m_machine_group (hd (machines example_db))) =
             Inr (Some (GMachineGroup (hd (machine_groups example_db))))"
    by (simp add: get_group_instance_def classes_def get_object_or_404_def objects_get_def example_db_def)
  have 3: "get_group_instance example_db ''business_unit'' (mg_business_unit (hd (machine_groups example_db))) =
             Inr (Some (GBusinessUnit (hd (business_units example_db))))"
    by (simp add: get_group_instance_def classes_def get_object_or_404_def objects_get_def example_db_def)
  have 4: "get_object_or_404 (\<lambda>a. app_id a = 1) (applications example_db) = Inr (hd (applications example_db))"
    by (simp add: get_object_or_404_def objects_get_def example_db_def)
  have 5: "m_machine_group (hd (machines example_db)) = 1" "mg_business_unit (hd (machine_groups example_db)) = 1"
    by (simp_all add: example_db_def)
  show ?thesis
    using scope_filtering_monotonic
            [OF 1 2 3 4, where any = 0 and ft = "''version''" and fv = "''1.0''"]
    unfolding 5 .
qed

text \<open>
  C3. On one dataset and with the same scope, application and field filters, the
  native distinct-on-machine path and the fallback path of the distinct-machine view
  fail alike or return results that stand for the same set of machine ids. The dataset
  satisfies the foreign key from inventory items to machines.
\<close>

theorem distinct_paths_agree:
  assumes "items_reference_machines d"
  shows "(\<exists>x. get_queryset True d gt gid aid ft fv = Inl x \<and>
              get_queryset False d gt gid aid ft fv = Inl x) \<or>
         (\<exists>native fallback.
              get_queryset True d gt gid aid ft fv = Inr native \<and>
              get_queryset False d gt gid aid ft fv = Inr fallback \<and>
              queryset_machine_ids native = queryset_machine_ids fallback)"
proof (cases "filtered_queryset d gt gid aid ft fv")
  case (Inl x)
  then show ?thesis by (simp add: get_queryset_def)
next
  case (Inr qs)
  have sub: "set qs \<subseteq> set (inventoryitems d)" using Inr by (rule filtered_queryset_subset)
  have "m_id ` {m \<in> set (machines d). m_id m \<in> ii_machine ` set qs} = ii_machine ` set qs"
  proof
    show "m_id ` {m \<in> set (machines d). m_id m \<in> ii_machine ` set qs} \<subseteq> ii_machine ` set qs"
      by blast
    show "ii_machine ` set qs \<subseteq> m_id ` {m \<in> set (machines d). m_id m \<in> ii_machine ` set qs}"
    proof
      fix k assume "k \<in> ii_machine ` set qs"
      then obtain i where i: "i \<in> set qs" "k = ii_machine i" by blast
      then have "i \<in> set (inventoryitems d)" using sub by blast
      then obtain m where "m \<in> set (machines d)" "m_id m = ii_machine i"
        using assms by (auto simp: items_reference_machines_def)
      then show "k \<in> m_id ` {m \<in> set (machines d). m_id m \<in> ii_machine ` set qs}"
        using i by force
    qed
  qed
  then show ?thesis using Inr by (simp add: get_queryset_def distinct_on_keys)
qed

theorem distinct_paths_agree_witness:
  "items_reference_machines example_db \<and>
   get_queryset True example_db ''all'' 0 1 ''all'' ''0'' = Inr (ItemQS (inventoryitems example_db)) \<and>
   get_queryset False example_db ''all'' 0 1 ''all'' ''0'' = Inr (MachineQS (machines example_db)) \<and>
   queryset_machine_ids (ItemQS (inventoryitems example_db)) =
     queryset_machine_ids (MachineQS (machines example_db))"
proof -
  have ok: "items_reference_machines example_db"
    by (simp add: items_reference_machines_def example_db_def)
  have 1: "get_queryset True example_db ''all'' 0 1 ''all'' ''0'' = Inr (ItemQS (inventoryitems example_db))"
    by (simp add: get_queryset_def filtered_queryset_def filter_inventoryitem_by_group_def
          get_group_instance_all get_object_or_404_def objects_get_def filter_by_field_def example_db_def)
  have 2: "get_queryset False example_db ''all'' 0 1 ''all'' ''0'' = Inr (MachineQS (machines example_db))"
    by (simp add: get_queryset_def filtered_queryset_def filter_inventoryitem_by_group_def
          get_group_instance_all get_object_or_404_def objects_get_def filter_by_field_def example_db_def)
  show ?thesis
    using distinct_paths_agree [OF ok, of "''all''" 0 1 "''all''" "''0''"] ok 1 2 by simp
qed

text \<open>
  C8, as the code has it. The attachment file name is a function of the URL arguments:
  the base name, then, joined by underscores, "application" with the application id
  (or "list" when the id is "0"), then "for" with the scope type and, unless the scope
  is "all", the scope id, then, for a given application and a field type other than
  "all", "where" field "is" quoted value; the suffix is ".csv". The application comes
  before the scope.
\<close>

theorem export_filename_layout:
  "export_filename kwargs =
     ''sal_inventory_application_''
     @ (if application_id kwargs = ''0'' then ''list'' else application_id kwargs)
     @ ''_for_'' @ group_type kwargs
     @ (if group_type kwargs \<noteq> ''all'' then ''_'' @ group_id kwargs else [])
     @ (if application_id kwargs \<noteq> ''0'' \<and> field_type kwargs \<noteq> ''all''
        then ''_where_'' @ field_type kwargs @ ''_is_'' @ quote (field_value kwargs) else [])
     @ ''.csv''"
  by (simp add: export_filename_def export_components_def get_csv_filename_def
        csv_filename_def csv_ext_def)

theorem export_filename_layout_witness:
  "export_filename \<lparr>group_type = ''machine_group'', group_id = ''3'', application_id = ''5'',
                    field_type = ''version'', field_value = ''1.0 b''\<rparr> =
     ''sal_inventory_application_5_for_machine_group_3_where_version_is_1.0%20b.csv''"
  using export_filename_layout
          [of "\<lparr>group_type = ''machine_group'', group_id = ''3'', application_id = ''5'',
                field_type = ''version'', field_value = ''1.0 b''\<rparr>"]
  by (simp add: quote_def quote_char_def always_safe_def hex_digit_def)

text \<open>
  In the order of the specification the scope would come first; the code's name for the
  same request starts with the application.
\<close>

theorem export_filename_order_counterexample:
  "export_filename \<lparr>group_type = ''machine_group'', group_id = ''3'', application_id = ''5'',
                    field_type = ''all'', field_value = ''0''\<rparr> =
     ''sal_inventory_application_5_for_machine_group_3.csv'' \<and>
   get_csv_filename (spec_components
       \<lparr>group_type = ''machine_group'', group_id = ''3'', application_id = ''5'',
        field_type = ''all'', field_value = ''0''\<rparr>) =
     ''sal_inventory_machine_group_3_for_application_5.csv'' \<and>
   export_filename \<lparr>group_type = ''machine_group'', group_id = ''3'', application_id = ''5'',
                    field_type = ''all'', field_value = ''0''\<rparr> \<noteq>
   get_csv_filename (spec_components
       \<lparr>group_type = ''machine_group'', group_id = ''3'', application_id = ''5'',
        field_type = ''all'', field_value = ''0''\<rparr>)"
  by (simp add: export_filename_def export_components_def spec_components_def
        get_csv_filename_def csv_filename_def csv_ext_def)

text \<open>
  C1, as the code has it. After a submission with a resolvable serial whose payload
  parses to a non-empty list, the machine's inventory items are, entry for entry and
  in order, the non-ignored entries of the payload: the items the machine had before
  are gone, and each new item carries the entry's version and path and refers to the
  application with the entry's bundle id, name and bundle name. A payload that parses
  to an empty list replaces nothing.
\<close>

theorem submit_replaces_items:
  assumes "apps_ok d" and "inventories_ok d"
    and "req_method request = ''POST''"
    and "post_serial request = Some serial" and "serial \<noteq> []"
    and "objects_get (\<lambda>m. m_serial m = serial) (machines d) = Inr m"
    and "post_base64bz2inventory request = Some payload" and "payload \<noteq> []"
    and "readPlistFromString e (decode_to_string e (replace_space_plus payload)) = Some items"
    and "items \<noteq> []"
  shows "\<exists>d'. inventory_submit e request d = (d', Inr (HttpResponse (inventory_submitted_for serial))) \<and>
              map (item_view d') (machine_items d' m) =
                map entry_view (filter (\<lambda>item. \<not> ignored item) items)"
proof -
  obtain meta0 where meta0: "inventory_meta_for m d = Inr meta0"
    using inventory_meta_for_ok [OF assms(2), of m] by (elim disjE conjE exE)
  let ?d1 = "inventoryitem_set_delete m d"
  have ok1: "apps_ok ?d1" using assms(1) by (simp add: apps_ok_def inventoryitem_set_delete_fields)
  obtain d2 new where run: "insert_items m items ?d1 = (d2, None)"
    and "apps_ok d2"
    and "set (applications ?d1) \<subseteq> set (applications d2)"
    and "\<forall>a \<in> set (applications d2). a \<in> set (applications ?d1) \<or> app_key a \<in> entry_key ` set items"
    and "\<forall>item \<in> set items. \<exists>a \<in> set (applications d2). app_key a = entry_key item"
    and items2: "inventoryitems d2 = inventoryitems ?d1 @ new"
    and own: "\<forall>i \<in> set new. ii_machine i = m_id m"
    and view: "map (item_view d2) new = map entry_view (filter (\<lambda>item. \<not> ignored item) items)"
    and "inventories d2 = inventories ?d1" and "next_inventory_id d2 = next_inventory_id ?d1"
    and "machines d2 = machines ?d1"
    using insert_items_result [OF ok1, of m items] by (elim exE conjE) (rule that)
  let ?meta = "meta0\<lparr>inv_sha256hash := sha256_hexdigest e (decode_to_string e (replace_space_plus payload))\<rparr>"
  let ?d' = "machine_save (m\<lparr>m_last_inventory_update := Some (now e)\<rparr>) (inventory_save ?meta d2)"
  have sub: "inventory_submit e request d = (?d', Inr (HttpResponse (inventory_submitted_for serial)))"
    using inventory_submit_unfold [OF assms(1) meta0 assms(3-10)] run by simp
  have "inventoryitems ?d' = filter (\<lambda>i. ii_machine i \<noteq> m_id m) (inventoryitems d) @ new"
    by (simp add: machine_save_fields inventory_save_fields items2 inventoryitem_set_delete_fields)
  then have mine: "machine_items ?d' m = new"
    using filter_own_items [OF own] by (simp add: machine_items_def)
  have "applications ?d' = applications d2"
    by (simp add: machine_save_fields inventory_save_fields)
  then have "map (item_view ?d') new = map (item_view d2) new"
    by (simp add: item_view_def)
  then have "map (item_view ?d') (machine_items ?d' m) =
               map entry_view (filter (\<lambda>item. \<not> ignored item) items)"
    using view mine by simp
  then show ?thesis using sub by blast
qed

theorem submit_replaces_items_witness:
  "\<exists>d'. inventory_submit example_env (example_request ''new'') example_db =
           (d', Inr (HttpResponse (inventory_submitted_for ''ABC123''))) \<and>
        map (item_view d') (machine_items d' (hd (machines example_db))) =
          [(Some (''com.bar.Tool'', ''Tool'', []), ''2.1'', [])]"
proof -
  have 1: "apps_ok example_db" by (simp add: apps_ok_def app_key_def example_db_def)
  have 2: "inventories_ok example_db" by (simp add: inventories_ok_def example_db_def)
  have 3: "req_method (example_request ''new'') = ''POST''"
    "post_serial (example_request ''new'') = Some ''ABC123''"
    "post_base64bz2inventory (example_request ''new'') = Some ''new''"
    by (simp_all add: example_request_def)
  have 4: "objects_get (\<lambda>m. m_serial m = ''ABC123'') (machines example_db) = Inr (hd (machines example_db))"
    by (simp add: objects_get_def example_db_def)
  have 5: "readPlistFromString example_env (decode_to_string example_env (replace_space_plus ''new'')) =
             Some [[(''bundleid'', ''com.bar.Tool''), (''name'', ''Tool''), (''version'', ''2.1'')]]"
    by (simp add: example_env_def replace_space_plus_def)
  have 6: "map entry_view (filter (\<lambda>item. \<not> ignored item)
              [[(''bundleid'', ''com.bar.Tool''), (''name'', ''Tool''), (''version'', ''2.1'')]]) =
           [(Some (''com.bar.Tool'', ''Tool'', []), ''2.1'', [])]"
    by (simp add: entry_view_def entry_key_def dict_get_def ignored_def bundleid_ignorelist_def)
  show ?thesis
    using submit_replaces_items [OF 1 2 3(1) 3(2) _ 4 3(3) _ 5] unfolding 6 by simp
qed

text \<open>
  A payload that parses to an empty list has no entries, and the machine keeps the item
  it had.
\<close>

theorem submit_replaces_items_counterexample:
  "readPlistFromString example_env
     (decode_to_string example_env (replace_space_plus ''empty'')) = Some [] \<and>
   machine_items (fst (inventory_submit example_env (example_request ''empty'') example_db))
     (hd (machines example_db)) = inventoryitems example_db \<and>
   inventoryitems example_db \<noteq> []"
  by (simp add: inventory_submit_def example_db_def example_env_def example_request_def
        objects_get_def replace_space_plus_def machine_save_def machine_items_def)

text \<open>
  C4, as the code has it. After a submission with a resolvable serial whose payload
  parses to a non-empty list, the machine has exactly one hash record, holding the hex
  digest of the raw decoded bytes (the string that was handed to the parser): the
  record is added when the machine had none and overwritten in place otherwise, and a
  hash lookup for the serial then returns that digest. A payload that parses to an
  empty list stores no hash.
\<close>

theorem submit_stores_hash:
  assumes "apps_ok d" and "inventories_ok d" and "machines_ok d"
    and "req_method request = ''POST''"
    and "post_serial request = Some serial" and "serial \<noteq> []"
    and "objects_get (\<lambda>m. m_serial m = serial) (machines d) = Inr m"
    and "post_base64bz2inventory request = Some payload" and "payload \<noteq> []"
    and "readPlistFromString e (decode_to_string e (replace_space_plus payload)) = Some items"
    and "items \<noteq> []"
  shows "\<exists>d'. inventory_submit e request d = (d', Inr (HttpResponse (inventory_submitted_for serial))) \<and>
              inventory_hash (Some serial) d' =
                Inr (HttpResponse (sha256_hexdigest e (decode_to_string e (replace_space_plus payload)))) \<and>
              length (inventories d') =
                (if \<exists>r \<in> set (inventories d). inv_machine r = m_id m
                 then length (inventories d) else Suc (length (inventories d)))"
proof -
  obtain meta0 where meta0: "inventory_meta_for m d = Inr meta0"
    using inventory_meta_for_ok [OF assms(2), of m] by (elim disjE conjE exE)
  let ?h = "sha256_hexdigest e (decode_to_string e (replace_space_plus payload))"
  let ?d1 = "inventoryitem_set_delete m d"
  have ok1: "apps_ok ?d1" using assms(1) by (simp add: apps_ok_def inventoryitem_set_delete_fields)
  obtain d2 new where run: "insert_items m items ?d1 = (d2, None)"
    and "apps_ok d2"
    and "set (applications ?d1) \<subseteq> set (applications d2)"
    and "\<forall>a \<in> set (applications d2). a \<in> set (applications ?d1) \<or> app_key a \<in> entry_key ` set items"
    and "\<forall>item \<in> set items. \<exists>a \<in> set (applications d2). app_key a = entry_key item"
    and "inventoryitems d2 = inventoryitems ?d1 @ new"
    and "\<forall>i \<in> set new. ii_machine i = m_id m"
    and "map (item_view d2) new = map entry_view (filter (\<lambda>item. \<not> ignored item) items)"
    and inv2: "inventories d2 = inventories ?d1" and "next_inventory_id d2 = next_inventory_id ?d1"
    and mach2: "machines d2 = machines ?d1"
    using insert_items_result [OF ok1, of m items] by (elim exE conjE) (rule that)
  let ?m1 = "m\<lparr>m_last_inventory_update := Some (now e)\<rparr>"
  let ?d3 = "inventory_save (meta0\<lparr>inv_sha256hash := ?h\<rparr>) d2"
  let ?d' = "machine_save ?m1 ?d3"
  have sub: "inventory_submit e request d = (?d', Inr (HttpResponse (inventory_submitted_for serial)))"
    using inventory_submit_unfold [OF assms(1) meta0 assms(4-11)] run by simp
  have inv2': "inventories d2 = inventories d"
    using inv2 by (simp add: inventoryitem_set_delete_fields)
  have "machines ?d3 = machines d"
    using mach2 by (simp add: inventory_save_fields inventoryitem_set_delete_fields)
  then have machine: "objects_get (\<lambda>m. m_serial m = serial) (machines ?d') = Inr ?m1"
    by (rule machine_save_lookup [OF assms(3) assms(7)])
  obtain meta where meta: "objects_get (\<lambda>r. inv_machine r = m_id m) (inventories ?d3) = Inr meta"
    and h: "inv_sha256hash meta = ?h"
    using inventory_save_lookup [OF assms(2) meta0 inv2', of ?h] by (elim exE conjE)
  have inv': "inventories ?d' = inventories ?d3" by (simp add: machine_save_fields)
  have "inventory_hash (Some serial) ?d' = Inr (HttpResponse ?h)"
    using assms(6) machine meta h by (simp add: inventory_hash_def inv')
  moreover have "length (inventories ?d') =
                   (if \<exists>r \<in> set (inventories d). inv_machine r = m_id m
                    then length (inventories d) else Suc (length (inventories d)))"
    unfolding inv' by (rule inventory_save_length [OF assms(2) meta0 inv2'])
  ultimately show ?thesis using sub by blast
qed

theorem submit_stores_hash_witness:
  "\<exists>d'. inventory_submit example_env (example_request ''new'') example_db =
           (d', Inr (HttpResponse (inventory_submitted_for ''ABC123''))) \<and>
        inventory_hash (Some ''ABC123'') d' = Inr (HttpResponse ''sha256:new'') \<and>
        length (inventories d') = 1"
proof -
  have 1: "apps_ok example_db" by (simp add: apps_ok_def app_key_def example_db_def)
  have 2: "inventories_ok example_db" by (simp add: inventories_ok_def example_db_def)
  have 3: "machines_ok example_db" by (simp add: machines_ok_def example_db_def)
  have 4: "req_method (example_request ''new'') = ''POST''"
    "post_serial (example_request ''new'') = Some ''ABC123''"
    "post_base64bz2inventory (example_request ''new'') = Some ''new''"
    by (simp_all add: example_request_def)
  have 5: "objects_get (\<lambda>m. m_serial m = ''ABC123'') (machines example_db) = Inr (hd (machines example_db))"
    by (simp add: objects_get_def example_db_def)
  have 6: "readPlistFromString example_env (decode_to_string example_env (replace_space_plus ''new'')) =
             Some [[(''bundleid'', ''com.bar.Tool''), (''name'', ''Tool''), (''version'', ''2.1'')]]"
    by (simp add: example_env_def replace_space_plus_def)
  have 7: "sha256_hexdigest example_env (decode_to_string example_env (replace_space_plus ''new'')) =
             ''sha256:new''"
    by (simp add: example_env_def replace_space_plus_def)
  have 8: "(if \<exists>r \<in> set (inventories example_db). inv_machine r = m_id (hd (machines example_db))
            then length (inventories example_db) else Suc (length (inventories example_db))) = 1"
    by (simp add: example_db_def)
  show ?thesis
    using submit_stores_hash [OF 1 2 3 4(1) 4(2) _ 5 4(3) _ 6] unfolding 7 8 by simp
qed

text \<open>
  After a payload that parses to an empty list the lookup still returns the hash stored
  before, not the digest of the submitted bytes.
\<close>

theorem submit_stores_hash_counterexample:
  "readPlistFromString example_env
     (decode_to_string example_env (replace_space_plus ''empty'')) = Some [] \<and>
   inventory_hash (Some ''ABC123'')
     (fst (inventory_submit example_env (example_request ''empty'') example_db)) =
     Inr (HttpResponse ''old'') \<and>
   sha256_hexdigest example_env (decode_to_string example_env (replace_space_plus ''empty'')) \<noteq> ''old''"
  by (simp add: inventory_submit_def inventory_hash_def example_db_def example_env_def
        example_request_def objects_get_def replace_space_plus_def machine_save_def)

text \<open>
  C5, as the code has it. The loop over a parsed submission resolves an application by
  get-or-create on (bundle id, name, bundle name) for every entry, also for an entry
  whose bundle id is on the ignore list: a triple that already has a row keeps that one
  row, a triple that has none gets exactly one, and no other row is added, so the table
  stays unique on the triple and afterwards holds one row for each triple of the old
  table or of an entry. The loop creates one inventory item for each entry that is not
  ignored, referring to the application of the entry's triple, with version and path
  defaulting to the empty string, and none for an ignored entry.
\<close>

theorem insert_items_per_entry:
  assumes "apps_ok d"
  shows "\<exists>d' new. insert_items m items d = (d', None) \<and>
           inventoryitems d' = inventoryitems d @ new \<and>
           map (item_view d') new = map entry_view (filter (\<lambda>item. \<not> ignored item) items) \<and>
           (\<forall>i \<in> set new. ii_machine i = m_id m) \<and>
           apps_ok d' \<and>
           set (applications d) \<subseteq> set (applications d') \<and>
           app_key ` set (applications d') = app_key ` set (applications d) \<union> entry_key ` set items \<and>
           length (applications d') = card (app_key ` set (applications d) \<union> entry_key ` set items)"
proof -
  obtain d' new where 1: "insert_items m items d = (d', None)"
    and ok: "apps_ok d'"
    and 2: "set (applications d) \<subseteq> set (applications d')"
    and 3: "\<forall>a \<in> set (applications d'). a \<in> set (applications d) \<or> app_key a \<in> entry_key ` set items"
    and 4: "\<forall>item \<in> set items. \<exists>a \<in> set (applications d'). app_key a = entry_key item"
    and 5: "inventoryitems d' = inventoryitems d @ new"
    and 6: "\<forall>i \<in> set new. ii_machine i = m_id m"
    and 7: "map (item_view d') new = map entry_view (filter (\<lambda>item. \<not> ignored item) items)"
    and "inventories d' = inventories d" and "next_inventory_id d' = next_inventory_id d"
    and "machines d' = machines d"
    using insert_items_result [OF assms, of m items] by (elim exE conjE) (rule that)
  have keys: "app_key ` set (applications d') = app_key ` set (applications d) \<union> entry_key ` set items"
  proof
    show "app_key ` set (applications d') \<subseteq> app_key ` set (applications d) \<union> entry_key ` set items"
      using 3 by auto
    show "app_key ` set (applications d) \<union> entry_key ` set items \<subseteq> app_key ` set (applications d')"
    proof
      fix k assume "k \<in> app_key ` set (applications d) \<union> entry_key ` set items"
      then show "k \<in> app_key ` set (applications d')"
      proof
        assume "k \<in> app_key ` set (applications d)"
        then show ?thesis using 2 by auto
      next
        assume "k \<in> entry_key ` set items"
        then obtain item where "item \<in> set items" "k = entry_key item" by auto
        then obtain a where "a \<in> set (applications d')" "app_key a = k" using 4 by auto
        then show ?thesis by auto
      qed
    qed
  qed
  have "distinct (map app_key (applications d'))" using ok by (simp add: apps_ok_def)
  then have "card (set (map app_key (applications d'))) = length (map app_key (applications d'))"
    by (rule distinct_card)
  then have 8: "length (applications d') = card (app_key ` set (applications d) \<union> entry_key ` set items)"
    using keys by simp
  show ?thesis
    by (rule exI [of _ d'], rule exI [of _ new]) (intro conjI 1 5 7 6 ok 2 keys 8)
qed

theorem insert_items_per_entry_witness:
  "apps_ok example_db \<and>
   (\<exists>d' new. insert_items (hd (machines example_db))
        [[(''bundleid'', ''com.apple.print.PrinterProxy''), (''name'', ''PrinterProxy'')],
         [(''bundleid'', ''com.bar.Tool''), (''name'', ''Tool''), (''version'', ''2.1'')],
         [(''bundleid'', ''com.foo.App''), (''name'', ''App''), (''CFBundleName'', ''App''),
          (''path'', ''/Applications/App.app'')]]
        example_db = (d', None) \<and>
      inventoryitems d' = inventoryitems example_db @ new \<and>
      map (item_view d') new =
        [(Some (''com.bar.Tool'', ''Tool'', []), ''2.1'', []),
         (Some (''com.foo.App'', ''App'', ''App''), [], ''/Applications/App.app'')] \<and>
      apps_ok d' \<and>
      app_key ` set (applications d') =
        {(''com.foo.App'', ''App'', ''App''), (''com.apple.print.PrinterProxy'', ''PrinterProxy'', []),
         (''com.bar.Tool'', ''Tool'', [])} \<and>
      length (applications d') = 3)"
proof -
  let ?items = "[[(''bundleid'', ''com.apple.print.PrinterProxy''), (''name'', ''PrinterProxy'')],
         [(''bundleid'', ''com.bar.Tool''), (''name'', ''Tool''), (''version'', ''2.1'')],
         [(''bundleid'', ''com.foo.App''), (''name'', ''App''), (''CFBundleName'', ''App''),
          (''path'', ''/Applications/App.app'')]]"
  have ok: "apps_ok example_db" by (simp add: apps_ok_def app_key_def example_db_def)
  have view: "map entry_view (filter (\<lambda>item. \<not> ignored item) ?items) =
      [(Some (''com.bar.Tool'', ''Tool'', []), ''2.1'', []),
       (Some (''com.foo.App'', ''App'', ''App''), [], ''/Applications/App.app'')]"
    by (simp add: entry_view_def entry_key_def dict_get_def ignored_def bundleid_ignorelist_def)
  have keys: "app_key ` set (applications example_db) \<union> entry_key ` set ?items =
      {(''com.foo.App'', ''App'', ''App''), (''com.apple.print.PrinterProxy'', ''PrinterProxy'', []),
       (''com.bar.Tool'', ''Tool'', [])}"
    by (auto simp: entry_key_def dict_get_def app_key_def example_db_def)
  have card: "card {(''com.foo.App'', ''App'', ''App''),
       (''com.apple.print.PrinterProxy'', ''PrinterProxy'', []), (''com.bar.Tool'', ''Tool'', [])} = 3"
    by simp
  obtain d' new where a: "insert_items (hd (machines example_db)) ?items example_db = (d', None)"
    and b: "inventoryitems d' = inventoryitems example_db @ new"
    and c: "map (item_view d') new = map entry_view (filter (\<lambda>item. \<not> ignored item) ?items)"
    and "\<forall>i \<in> set new. ii_machine i = m_id (hd (machines example_db))"
    and e: "apps_ok d'"
    and "set (applications example_db) \<subseteq> set (applications d')"
    and g: "app_key ` set (applications d') =
              app_key ` set (applications example_db) \<union> entry_key ` set ?items"
    and h: "length (applications d') =
              card (app_key ` set (applications example_db) \<union> entry_key ` set ?items)"
    using insert_items_per_entry [OF ok, of "hd (machines example_db)" ?items]
    by (elim exE conjE) (rule that)
  note c' = c [unfolded view] and g' = g [unfolded keys] and h' = h [unfolded keys card]
  show ?thesis
    by (intro conjI ok exI [of _ d'] exI [of _ new] a b c' e g' h')
qed

text \<open>
  A submission whose only entry is on the ignore list creates no inventory item, yet
  the application table gains a row for the ignored bundle id.
\<close>

theorem ignored_entry_application_counterexample:
  "readPlistFromString example_env
     (decode_to_string example_env (replace_space_plus ''proxy'')) =
     Some [[(''bundleid'', ''com.apple.print.PrinterProxy''), (''name'', ''PrinterProxy'')]] \<and>
   ignored [(''bundleid'', ''com.apple.print.PrinterProxy''), (''name'', ''PrinterProxy'')] \<and>
   applications (fst (inventory_submit example_env (example_request ''proxy'') example_db)) =
     applications example_db @
       [\<lparr>app_id = 2, app_bundleid = ''com.apple.print.PrinterProxy'', app_name = ''PrinterProxy'',
         app_bundlename = []\<rparr>] \<and>
   inventoryitems (fst (inventory_submit example_env (example_request ''proxy'') example_db)) = []"
  by (simp add: inventory_submit_def store_inventory_def inventory_meta_for_def
        inventoryitem_set_delete_def get_or_create_def inventory_save_def machine_save_def
        example_db_def example_env_def example_request_def objects_get_def
        replace_space_plus_def dict_get_def ignored_def bundleid_ignorelist_def Let_def)

end
